theory Spec2Isabelle
  imports Complex_Main "HOL-Library.AList"
begin

section \<open>JavaScript values\<close>

text \<open>
  A row cell is \<open>string | number | boolean | null | undefined\<close>. A number is a double:
  not-a-number, an infinity, or a finite value, kept here as the rational it denotes (both
  zeros are the one value \<open>JFin 0\<close>; nothing below tells them apart).

  A property read \<open>row[k]\<close> can give one more kind of value: when the row holds no key
  \<open>k\<close> of its own and \<open>k\<close> names a property of \<open>Object.prototype\<close>, the read gives that
  inherited property. \<open>JProto k\<close> is the property of \<open>Object.prototype\<close> named \<open>k\<close>: a
  built-in function, or the prototype object itself for \<open>__proto__\<close>.
\<close>

datatype jsnum = JNaN | JNegInf | JFin rat | JPosInf

datatype jsval = JUndefined | JNull | JBool bool | JNum jsnum | JStr string | JProto string

text \<open>
  Two conversions of the language depend on the decimal notation of doubles and are not
  part of the repository: the text of a finite number (\<open>String(n)\<close>) and the number read
  from a text (\<open>Number(s)\<close>). A third depends on the engine: the text of a built-in
  function, given its name. They are parameters of the model, so every theorem below
  holds whatever they compute.
\<close>

record js_env =
  NumberToString :: "rat \<Rightarrow> string"
  StringToNumber :: "string \<Rightarrow> jsnum"
  NativeFunctionToString :: "string \<Rightarrow> string"

text \<open>
  The text of an inherited property: \<open>String(Object.prototype)\<close> is \<open>[object Object]\<close>;
  every other property of \<open>Object.prototype\<close> is a built-in function that has the name of
  the property, but for \<open>constructor\<close>, which is the function \<open>Object\<close>. Such a value is
  truthy, and as a number it is not-a-number (its text is not a numeric literal).
\<close>

fun js_String :: "'e js_env_scheme \<Rightarrow> jsval \<Rightarrow> string" where
  "js_String E JUndefined = ''undefined''"
| "js_String E JNull = ''null''"
| "js_String E (JBool b) = (if b then ''true'' else ''false'')"
| "js_String E (JNum JNaN) = ''NaN''"
| "js_String E (JNum JNegInf) = ''-Infinity''"
| "js_String E (JNum JPosInf) = ''Infinity''"
| "js_String E (JNum (JFin q)) = NumberToString E q"
| "js_String E (JStr s) = s"
| "js_String E (JProto k) =
     (if k = ''__proto__'' then ''[object Object]''
      else NativeFunctionToString E (if k = ''constructor'' then ''Object'' else k))"

fun js_Number :: "'e js_env_scheme \<Rightarrow> jsval \<Rightarrow> jsnum" where
  "js_Number E JUndefined = JNaN"
| "js_Number E JNull = JFin 0"
| "js_Number E (JBool b) = (if b then JFin 1 else JFin 0)"
| "js_Number E (JNum n) = n"
| "js_Number E (JStr s) = StringToNumber E s"
| "js_Number E (JProto k) = JNaN"

text \<open>Truthiness, as \<open>!v\<close>, \<open>v && ...\<close> and \<open>if (v)\<close> read a value.\<close>

fun js_truthy :: "jsval \<Rightarrow> bool" where
  "js_truthy JUndefined = False"
| "js_truthy JNull = False"
| "js_truthy (JBool b) = b"
| "js_truthy (JNum n) = (n \<noteq> JNaN \<and> n \<noteq> JFin 0)"
| "js_truthy (JStr s) = (s \<noteq> [])"
| "js_truthy (JProto k) = True"

text \<open>The nullish coalescing operator \<open>v ?? d\<close>.\<close>

definition nullish :: "jsval \<Rightarrow> jsval \<Rightarrow> jsval" where
  "nullish v d = (if v = JUndefined \<or> v = JNull then d else v)"

text \<open>The relational operators on numbers: every comparison with not-a-number is false.\<close>

fun js_lt :: "jsnum \<Rightarrow> jsnum \<Rightarrow> bool" where
  "js_lt JNaN b = False"
| "js_lt a JNaN = False"
| "js_lt a JNegInf = False"
| "js_lt JNegInf b = True"
| "js_lt JPosInf b = False"
| "js_lt (JFin x) JPosInf = True"
| "js_lt (JFin x) (JFin y) = (x < y)"

definition js_gt :: "jsnum \<Rightarrow> jsnum \<Rightarrow> bool" where
  "js_gt a b = js_lt b a"

definition js_le :: "jsnum \<Rightarrow> jsnum \<Rightarrow> bool" where
  "js_le a b = (a \<noteq> JNaN \<and> b \<noteq> JNaN \<and> \<not> js_lt b a)"

definition js_ge :: "jsnum \<Rightarrow> jsnum \<Rightarrow> bool" where
  "js_ge a b = js_le b a"

subsection \<open>Strings\<close>

text \<open>
  A character is a code unit below 256. \<open>toLowerCase\<close> maps \<open>A\<close>-\<open>Z\<close> and the
  upper-case letters of Latin-1 (\<open>0xC0\<close>-\<open>0xDE\<close> without the multiplication sign
  \<open>0xD7\<close>) 32 places up; \<open>trim\<close> strips tab, line feed, vertical tab, form feed,
  carriage return, space and no-break space from both ends.
\<close>

definition toLowerChar :: "char \<Rightarrow> char" where
  "toLowerChar c =
     (let n = (of_char c :: nat)
      in if (65 \<le> n \<and> n \<le> 90) \<or> (192 \<le> n \<and> n \<le> 222 \<and> n \<noteq> 215)
         then char_of (n + 32) else c)"

definition toLowerCase :: "string \<Rightarrow> string" where
  "toLowerCase s = map toLowerChar s"

definition isWhiteSpace :: "char \<Rightarrow> bool" where
  "isWhiteSpace c = ((of_char c :: nat) \<in> {9, 10, 11, 12, 13, 32, 160})"

definition trim :: "string \<Rightarrow> string" where
  "trim s = rev (dropWhile isWhiteSpace (rev (dropWhile isWhiteSpace s)))"

definition startsWith :: "string \<Rightarrow> string \<Rightarrow> bool" where
  "startsWith s t = (take (length t) s = t)"

definition endsWith :: "string \<Rightarrow> string \<Rightarrow> bool" where
  "endsWith s t = (length t \<le> length s \<and> drop (length s - length t) s = t)"

fun str_includes :: "string \<Rightarrow> string \<Rightarrow> bool" where
  "str_includes [] t = (t = [])"
| "str_includes (c # s) t = (startsWith (c # s) t \<or> str_includes s t)"

text \<open>The text of a natural number, as \<open>String(n)\<close> and a template literal print one.\<close>

fun showNat :: "nat \<Rightarrow> string" where
  "showNat n =
     (if n < 10 then [''0123456789'' ! n]
      else showNat (n div 10) @ [''0123456789'' ! (n mod 10)])"

subsection \<open>The conversions on integers\<close>

text \<open>
  The closed examples below are evaluated with \<open>decimalEnv\<close>. It prints an integer in
  decimal and reads a trimmed text of digits with an optional sign as that integer, the
  empty text as \<open>0\<close> and a text such as \<open>abc\<close> as not-a-number, as JavaScript does for
  them. The examples use small integers and such texts only; what \<open>decimalEnv\<close> gives
  for a fraction, or for a text with a fraction, an exponent, a radix prefix or
  \<open>Infinity\<close>, is never read. The text of a built-in function is the one V8 prints,
  \<open>function Object() { [native code] }\<close> for \<open>Object\<close>.
\<close>

definition isDigit :: "char \<Rightarrow> bool" where
  "isDigit c = (48 \<le> (of_char c :: nat) \<and> (of_char c :: nat) \<le> 57)"

definition readNat :: "string \<Rightarrow> nat" where
  "readNat s = fold (\<lambda>c n. 10 * n + ((of_char c :: nat) - 48)) s 0"

definition readInteger :: "string \<Rightarrow> jsnum" where
  "readInteger s =
     (let t = trim s
      in case t of
           [] \<Rightarrow> JFin 0
         | c # r \<Rightarrow>
             if c = CHR ''-'' \<and> r \<noteq> [] \<and> list_all isDigit r then JFin (- of_nat (readNat r))
             else if c = CHR ''+'' \<and> r \<noteq> [] \<and> list_all isDigit r then JFin (of_nat (readNat r))
             else if list_all isDigit t then JFin (of_nat (readNat t))
             else JNaN)"

definition showInteger :: "rat \<Rightarrow> string" where
  "showInteger q =
     (if q < 0 then ''-'' @ showNat (nat (- \<lfloor>q\<rfloor>)) else showNat (nat \<lfloor>q\<rfloor>))"

definition showNative :: "string \<Rightarrow> string" where
  "showNative fname = ''function '' @ fname @ ''() { [native code] }''"

definition decimalEnv :: js_env where
  "decimalEnv = \<lparr>NumberToString = showInteger, StringToNumber = readInteger,
                  NativeFunctionToString = showNative\<rparr>"

section \<open>The table state (tableSlice.ts)\<close>

datatype ColumnType = TText | TNumber | TDate | TEmail | TSelect

record Validation =
  val_required :: "bool option"
  val_min :: "jsnum option"
  val_max :: "jsnum option"
  val_pattern :: "string option"
  val_custom :: "string option"

record TableColumn =
  col_id :: string
  col_label :: string
  col_visible :: bool
  col_editable :: "bool option"
  col_type :: "ColumnType option"
  col_options :: "string list option"
  col_validation :: "Validation option"

text \<open>
  A row is a plain object with the key \<open>id\<close> and any other keys; the other keys are kept
  in the order the object holds them. \<open>rowGet r k\<close> is the property read \<open>r[k]\<close>: the
  row's own value under \<open>k\<close>, else the property of \<open>Object.prototype\<close> named \<open>k\<close> that the
  row inherits, else \<open>undefined\<close>.
\<close>

record TableRow =
  row_id :: string
  row_fields :: "(string \<times> jsval) list"

text \<open>The names of the properties of \<open>Object.prototype\<close>.\<close>

definition objectPrototypeKeys :: "string list" where
  "objectPrototypeKeys =
     [''constructor'', ''hasOwnProperty'', ''isPrototypeOf'', ''propertyIsEnumerable'',
      ''toLocaleString'', ''toString'', ''valueOf'', ''__proto__'', ''__defineGetter__'',
      ''__defineSetter__'', ''__lookupGetter__'', ''__lookupSetter__'']"

definition rowGet :: "TableRow \<Rightarrow> string \<Rightarrow> jsval" where
  "rowGet r k =
     (if k = ''id'' then JStr (row_id r)
      else (case map_of (row_fields r) k of
              Some v \<Rightarrow> v
            | None \<Rightarrow> if k \<in> set objectPrototypeKeys then JProto k else JUndefined))"

datatype FilterOperator =
  Equals | Contains | StartsWith | EndsWith | GreaterThan | LessThan | Between
  | IsEmpty | IsNotEmpty

text \<open>\<open>filter_value2\<close> is the optional \<open>value2\<close>: \<open>None\<close> when the key is absent.\<close>

record ColumnFilter =
  filter_column :: string
  filter_operator :: FilterOperator
  filter_value :: jsval
  filter_value2 :: "jsval option"

definition optval :: "jsval option \<Rightarrow> jsval" where
  "optval v = (case v of None \<Rightarrow> JUndefined | Some x \<Rightarrow> x)"

section \<open>The query pipeline: \<open>filterRows\<close> (TableManager)\<close>

text \<open>The callback of \<open>filters.every\<close> in \<open>filterRows\<close>, read for its truthiness.\<close>

definition filterRows_every :: "'e js_env_scheme \<Rightarrow> TableRow \<Rightarrow> ColumnFilter \<Rightarrow> bool" where
  "filterRows_every E row f =
     (let v = rowGet row (filter_column f); filterValue = filter_value f
      in case filter_operator f of
           Equals \<Rightarrow> toLowerCase (js_String E v) = toLowerCase (js_String E filterValue)
         | Contains \<Rightarrow> str_includes (toLowerCase (js_String E v)) (toLowerCase (js_String E filterValue))
         | StartsWith \<Rightarrow> startsWith (toLowerCase (js_String E v)) (toLowerCase (js_String E filterValue))
         | EndsWith \<Rightarrow> endsWith (toLowerCase (js_String E v)) (toLowerCase (js_String E filterValue))
         | GreaterThan \<Rightarrow> js_gt (js_Number E v) (js_Number E filterValue)
         | LessThan \<Rightarrow> js_lt (js_Number E v) (js_Number E filterValue)
         | Between \<Rightarrow> js_ge (js_Number E v) (js_Number E filterValue)
                       \<and> js_le (js_Number E v) (js_Number E (optval (filter_value2 f)))
         | IsEmpty \<Rightarrow> \<not> js_truthy v \<or> trim (js_String E v) = []
         | IsNotEmpty \<Rightarrow> js_truthy v \<and> trim (js_String E v) \<noteq> [])"

text \<open>The callback of \<open>columns.some\<close> in the search stage.\<close>

definition filterRows_some :: "'e js_env_scheme \<Rightarrow> string \<Rightarrow> TableRow \<Rightarrow> TableColumn \<Rightarrow> bool" where
  "filterRows_some E lower row col =
     (col_visible col
      \<and> str_includes (toLowerCase (js_String E (nullish (rowGet row (col_id col)) (JStr [])))) lower)"

definition filterRows ::
  "'e js_env_scheme \<Rightarrow> TableRow list \<Rightarrow> TableColumn list \<Rightarrow> string \<Rightarrow> ColumnFilter list
   \<Rightarrow> TableRow list" where
  "filterRows E rows columns search filters =
     (let filteredRows = rows;
          filteredRows =
            (if search \<noteq> []
             then (let lower = toLowerCase search
                   in filter (\<lambda>row. list_ex (filterRows_some E lower row) columns) filteredRows)
             else filteredRows);
          filteredRows =
            (if filters \<noteq> []
             then filter (\<lambda>row. list_all (filterRows_every E row) filters) filteredRows
             else filteredRows)
      in filteredRows)"

subsection \<open>Arrays\<close>

text \<open>
  \<open>Array.prototype.slice(start, fin)\<close> and \<open>splice(start, 1)\<close> for integer arguments: a
  negative index counts from the end, and every index is clamped to the array.
\<close>

definition relIndex :: "int \<Rightarrow> nat \<Rightarrow> nat" where
  "relIndex i len = (if i < 0 then nat (max (int len + i) 0) else min (nat i) len)"

definition slice :: "int \<Rightarrow> int \<Rightarrow> 'a list \<Rightarrow> 'a list" where
  "slice start fin xs =
     (let k = relIndex start (length xs); final = relIndex fin (length xs)
      in take (final - k) (drop k xs))"

definition splice1 :: "int \<Rightarrow> 'a list \<Rightarrow> 'a list" where
  "splice1 start xs = (let k = relIndex start (length xs) in take k xs @ drop (Suc k) xs)"

section \<open>Pagination: \<open>pagedRows\<close> (TableManager)\<close>

text \<open>\<open>page\<close> and \<open>pageSize\<close> are the integers the pagination control dispatches.\<close>

definition pagedRows :: "'a list \<Rightarrow> int \<Rightarrow> int \<Rightarrow> 'a list" where
  "pagedRows sortedRows pg pgSize =
     (if length sortedRows = 0 then []
      else slice (pg * pgSize) (pg * pgSize + pgSize) sortedRows)"

section \<open>The state and its reducers (tableSlice.ts)\<close>

datatype Direction = Asc | Desc

record SortSpec =
  sort_column :: string
  sort_direction :: Direction

datatype LogAction = ActCreate | ActUpdate | ActDelete | ActImport | ActExport

record ActivityLog =
  log_id :: string
  log_timestamp :: string
  log_action :: LogAction
  log_rowId :: "string option"
  log_details :: string
  log_user :: string

record SavedView =
  view_id :: string
  view_name :: string
  view_columns :: "TableColumn list"
  view_filters :: "ColumnFilter list"
  view_sort :: "SortSpec option"
  view_search :: string
  view_timestamp :: string

record TableState =
  columns :: "TableColumn list"
  rows :: "TableRow list"
  search :: string
  sort_s :: "SortSpec option"
  page :: int
  pageSize :: int
  editingRows :: "string list"
  selectedRows :: "string list"
  filters :: "ColumnFilter list"
  activityLog :: "ActivityLog list"
  savedViews :: "SavedView list"
  validationErrors :: "(string \<times> (string \<times> string) list) list"
  showAnalytics :: bool

text \<open>
  What a reducer reads from the clock: the text of \<open>Date.now()\<close> and of
  \<open>new Date().toISOString()\<close>.
\<close>

record Clock =
  clock_now :: string
  clock_iso :: string

text \<open>The payloads: an activity without id, timestamp and user; a view without id and timestamp.\<close>

record LogPayload =
  pl_action :: LogAction
  pl_rowId :: "string option"
  pl_details :: string

record ViewPayload =
  vp_name :: string
  vp_columns :: "TableColumn list"
  vp_filters :: "ColumnFilter list"
  vp_sort :: "SortSpec option"
  vp_search :: string

text \<open>The initial state of the slice.\<close>

definition initialState :: TableState where
  "initialState =
     \<lparr>columns =
        [\<lparr>col_id = ''name'', col_label = ''Name'', col_visible = True, col_editable = Some True,
          col_type = Some TText, col_options = None,
          col_validation = Some \<lparr>val_required = Some True, val_min = None, val_max = None,
                                  val_pattern = None, val_custom = None\<rparr>\<rparr>,
         \<lparr>col_id = ''email'', col_label = ''Email'', col_visible = True, col_editable = Some True,
          col_type = Some TEmail, col_options = None,
          col_validation = Some \<lparr>val_required = Some True, val_min = None, val_max = None,
                                  val_pattern = Some (''^['' @ [CHR 0x5C] @ ''w-'' @ [CHR 0x5C]
                                    @ ''.]+@(['' @ [CHR 0x5C] @ ''w-]+'' @ [CHR 0x5C] @ ''.)+[''
                                    @ [CHR 0x5C] @ ''w-]{2,4}$''),
                                  val_custom = None\<rparr>\<rparr>,
         \<lparr>col_id = ''age'', col_label = ''Age'', col_visible = True, col_editable = Some True,
          col_type = Some TNumber, col_options = None,
          col_validation = Some \<lparr>val_required = None, val_min = Some (JFin 18),
                                  val_max = Some (JFin 100), val_pattern = None,
                                  val_custom = None\<rparr>\<rparr>,
         \<lparr>col_id = ''role'', col_label = ''Role'', col_visible = True, col_editable = Some True,
          col_type = Some TSelect,
          col_options = Some [''Admin'', ''User'', ''Manager'', ''Developer''],
          col_validation = Some \<lparr>val_required = Some True, val_min = None, val_max = None,
                                  val_pattern = None, val_custom = None\<rparr>\<rparr>],
      rows = [], search = [], sort_s = None, page = 0, pageSize = 10, editingRows = [],
      selectedRows = [], filters = [], activityLog = [], savedViews = [],
      validationErrors = [], showAnalytics = False\<rparr>"

definition setColumns :: "TableColumn list \<Rightarrow> TableState \<Rightarrow> TableState" where
  "setColumns payload s = s\<lparr>columns := payload\<rparr>"

definition addRow :: "TableRow \<Rightarrow> TableState \<Rightarrow> TableState" where
  "addRow payload s = s\<lparr>rows := rows s @ [payload]\<rparr>"

definition setSearch :: "string \<Rightarrow> TableState \<Rightarrow> TableState" where
  "setSearch payload s = s\<lparr>search := payload\<rparr>"

definition setSort :: "SortSpec option \<Rightarrow> TableState \<Rightarrow> TableState" where
  "setSort payload s = s\<lparr>sort_s := payload\<rparr>"

definition setSelectedRows :: "string list \<Rightarrow> TableState \<Rightarrow> TableState" where
  "setSelectedRows payload s = s\<lparr>selectedRows := payload\<rparr>"

definition toggleRowSelection :: "string \<Rightarrow> TableState \<Rightarrow> TableState" where
  "toggleRowSelection rowId s =
     (if rowId \<in> set (selectedRows s)
      then s\<lparr>selectedRows := filter (\<lambda>i. i \<noteq> rowId) (selectedRows s)\<rparr>
      else s\<lparr>selectedRows := selectedRows s @ [rowId]\<rparr>)"

definition setFilters :: "ColumnFilter list \<Rightarrow> TableState \<Rightarrow> TableState" where
  "setFilters payload s = s\<lparr>filters := payload\<rparr>"

definition addFilter :: "ColumnFilter \<Rightarrow> TableState \<Rightarrow> TableState" where
  "addFilter payload s = s\<lparr>filters := filters s @ [payload]\<rparr>"

definition removeFilter :: "int \<Rightarrow> TableState \<Rightarrow> TableState" where
  "removeFilter payload s = s\<lparr>filters := splice1 payload (filters s)\<rparr>"

text \<open>The entry \<open>logActivity\<close> builds: \<open>{id, timestamp, user, ...action.payload}\<close>.\<close>

definition logEntry :: "Clock \<Rightarrow> LogPayload \<Rightarrow> ActivityLog" where
  "logEntry c payload =
     \<lparr>log_id = clock_now c, log_timestamp = clock_iso c,
      log_action = pl_action payload, log_rowId = pl_rowId payload,
      log_details = pl_details payload, log_user = ''Current User''\<rparr>"

definition logActivity :: "Clock \<Rightarrow> LogPayload \<Rightarrow> TableState \<Rightarrow> TableState" where
  "logActivity c payload s =
     (let log = logEntry c payload;
          unshifted = log # activityLog s
      in s\<lparr>activityLog := (if length unshifted > 1000 then slice 0 1000 unshifted
                             else unshifted)\<rparr>)"

definition saveView :: "Clock \<Rightarrow> ViewPayload \<Rightarrow> TableState \<Rightarrow> TableState" where
  "saveView c payload s =
     (let view = \<lparr>view_id = clock_now c, view_name = vp_name payload,
                  view_columns = vp_columns payload, view_filters = vp_filters payload,
                  view_sort = vp_sort payload, view_search = vp_search payload,
                  view_timestamp = clock_iso c\<rparr>
      in s\<lparr>savedViews := savedViews s @ [view]\<rparr>)"

definition loadView :: "string \<Rightarrow> TableState \<Rightarrow> TableState" where
  "loadView payload s =
     (case find (\<lambda>v. view_id v = payload) (savedViews s) of
        None \<Rightarrow> s
      | Some view \<Rightarrow>
          s\<lparr>columns := view_columns view, filters := view_filters view,
            sort_s := view_sort view, search := view_search view, page := 0\<rparr>)"

definition bulkDeleteRows :: "string list \<Rightarrow> TableState \<Rightarrow> TableState" where
  "bulkDeleteRows payload s =
     s\<lparr>rows := filter (\<lambda>row. row_id row \<notin> set payload) (rows s), selectedRows := []\<rparr>"

section \<open>The export projector: \<open>getExportData\<close> (AdvancedExport)\<close>

datatype ExportScope = ScopeAll | ScopeVisible | ScopeSelected | ScopeFiltered

text \<open>The callback of \<open>filters.every\<close> in the \<open>filtered\<close> case of \<open>getExportData\<close>.\<close>

definition getExportData_every :: "'e js_env_scheme \<Rightarrow> TableRow \<Rightarrow> ColumnFilter \<Rightarrow> bool" where
  "getExportData_every E row f =
     (let v = rowGet row (filter_column f); filterValue = filter_value f
      in case filter_operator f of
           Equals \<Rightarrow> toLowerCase (js_String E v) = toLowerCase (js_String E filterValue)
         | Contains \<Rightarrow> str_includes (toLowerCase (js_String E v)) (toLowerCase (js_String E filterValue))
         | StartsWith \<Rightarrow> startsWith (toLowerCase (js_String E v)) (toLowerCase (js_String E filterValue))
         | EndsWith \<Rightarrow> endsWith (toLowerCase (js_String E v)) (toLowerCase (js_String E filterValue))
         | GreaterThan \<Rightarrow> js_gt (js_Number E v) (js_Number E filterValue)
         | LessThan \<Rightarrow> js_lt (js_Number E v) (js_Number E filterValue)
         | Between \<Rightarrow> js_ge (js_Number E v) (js_Number E filterValue)
                       \<and> js_le (js_Number E v) (js_Number E (optval (filter_value2 f)))
         | IsEmpty \<Rightarrow> v = JNull \<or> v = JUndefined \<or> trim (js_String E v) = []
         | IsNotEmpty \<Rightarrow> v \<noteq> JNull \<and> v \<noteq> JUndefined \<and> trim (js_String E v) \<noteq> [])"

text \<open>The callback of \<open>columns.some\<close> in the \<open>filtered\<close> case.\<close>

definition getExportData_some :: "'e js_env_scheme \<Rightarrow> string \<Rightarrow> TableRow \<Rightarrow> TableColumn \<Rightarrow> bool" where
  "getExportData_some E searchLower row col =
     (col_visible col
      \<and> str_includes (toLowerCase (js_String E (nullish (rowGet row (col_id col)) (JStr []))))
            searchLower)"

definition getExportData ::
  "'e js_env_scheme \<Rightarrow> TableState \<Rightarrow> ExportScope \<Rightarrow> TableRow list \<times> TableColumn list" where
  "getExportData E s scope =
     (case scope of
        ScopeVisible \<Rightarrow> (rows s, filter col_visible (columns s))
      | ScopeSelected \<Rightarrow>
          (if length (selectedRows s) = 0 then ([], [])
           else (filter (\<lambda>row. row_id row \<in> set (selectedRows s)) (rows s),
                 filter col_visible (columns s)))
      | ScopeFiltered \<Rightarrow>
          (let exportRows = rows s;
               exportRows =
                 (if search s \<noteq> []
                  then (let searchLower = toLowerCase (search s)
                        in filter (\<lambda>row. list_ex (getExportData_some E searchLower row) (columns s))
                             exportRows)
                  else exportRows);
               exportRows =
                 filter (\<lambda>row. list_all (getExportData_every E row) (filters s)) exportRows
           in (exportRows, filter col_visible (columns s)))
      | ScopeAll \<Rightarrow> (rows s, filter col_visible (columns s)))"

section \<open>Bulk actions: \<open>handleBulkDuplicate\<close> (BulkActions)\<close>

text \<open>
  The handler reads the rows and the selection of the state it is called in, then
  dispatches \<open>addRow\<close> for every copy, \<open>logActivity\<close> and \<open>setSelectedRows([])\<close>.
  \<open>uuidv4\<close> is the identity generator of the \<open>uuid\<close> package: \<open>uuidv4 i\<close> is what its
  \<open>i\<close>-th call of the handler returns. The copy of a row is the spread
  \<open>{...row, id: uuidv4(), name: `${row.name} (Copy)`}\<close>.
\<close>

definition duplicateRow :: "'e js_env_scheme \<Rightarrow> string \<Rightarrow> TableRow \<Rightarrow> TableRow" where
  "duplicateRow E newId row =
     row\<lparr>row_id := newId,
         row_fields :=
           AList.update ''name'' (JStr (js_String E (rowGet row ''name'') @ '' (Copy)''))
             (row_fields row)\<rparr>"

definition handleBulkDuplicate ::
  "'e js_env_scheme \<Rightarrow> (nat \<Rightarrow> string) \<Rightarrow> Clock \<Rightarrow> TableState \<Rightarrow> TableState" where
  "handleBulkDuplicate E uuidv4 c s =
     (let selectedRowsData = filter (\<lambda>row. row_id row \<in> set (selectedRows s)) (rows s);
          duplicatedRows =
            map (\<lambda>(i, row). duplicateRow E (uuidv4 i) row) (enumerate 0 selectedRowsData);
          s1 = fold addRow duplicatedRows s;
          s2 = logActivity c
                 \<lparr>pl_action = ActCreate, pl_rowId = None,
                  pl_details = ''Duplicated ''
                    @ showNat (length (selectedRows s)) @ '' rows''\<rparr> s1
      in setSelectedRows [] s2)"

section \<open>Saved views: the dispatches of SavedViews\<close>

text \<open>
  \<open>handleSaveCurrentView\<close> dispatches \<open>saveView\<close> with the live columns, filters, sort and
  search under the trimmed name, when that name is not empty.
\<close>

definition currentView :: "string \<Rightarrow> TableState \<Rightarrow> ViewPayload" where
  "currentView viewName s =
     \<lparr>vp_name = trim viewName, vp_columns = columns s, vp_filters = filters s,
      vp_sort = sort_s s, vp_search = search s\<rparr>"

text \<open>The reducers that change the live columns, filters, sort and search.\<close>

datatype QueryMutation =
  SetColumns "TableColumn list"
  | SetFilters "ColumnFilter list"
  | AddFilter ColumnFilter
  | RemoveFilter int
  | SetSort "SortSpec option"
  | SetSearch string

fun mutate :: "QueryMutation \<Rightarrow> TableState \<Rightarrow> TableState" where
  "mutate (SetColumns cs) s = setColumns cs s"
| "mutate (SetFilters fs) s = setFilters fs s"
| "mutate (AddFilter f) s = addFilter f s"
| "mutate (RemoveFilter i) s = removeFilter i s"
| "mutate (SetSort so) s = setSort so s"
| "mutate (SetSearch t) s = setSearch t s"

section \<open>Sequences of dispatches\<close>

text \<open>\<open>logActivity\<close> dispatched once for every call of a list, in order.\<close>

definition logActivities :: "(Clock \<times> LogPayload) list \<Rightarrow> TableState \<Rightarrow> TableState" where
  "logActivities calls s = fold (\<lambda>(c, p). logActivity c p) calls s"

section \<open>Strings: what \<open>str_includes\<close> decides\<close>



section \<open>Selection\<close>

text \<open>
  C10: \<open>toggleRowSelection(id)\<close> toggles the membership of \<open>id\<close> in the selection, leaves
  the membership of every other identity as it was, and applied twice gives a selection
  that is, as a set, the original one.
\<close>

theorem toggleRowSelection_toggles:
  "(rowId \<in> set (selectedRows (toggleRowSelection rowId s))) = (rowId \<notin> set (selectedRows s))
   \<and> (\<forall>other. other \<noteq> rowId \<longrightarrow>
         (other \<in> set (selectedRows (toggleRowSelection rowId s)))
           = (other \<in> set (selectedRows s)))
   \<and> set (selectedRows (toggleRowSelection rowId (toggleRowSelection rowId s)))
       = set (selectedRows s)"
  by (auto simp: toggleRowSelection_def)

theorem toggleRowSelection_toggles_witness:
  "selectedRows (toggleRowSelection ''r2'' (initialState\<lparr>selectedRows := [''r1'', ''r2'']\<rparr>))
     = [''r1'']
   \<and> selectedRows (toggleRowSelection ''r2''
         (toggleRowSelection ''r2'' (initialState\<lparr>selectedRows := [''r1'', ''r2'']\<rparr>)))
       = [''r1'', ''r2'']
   \<and> ''r1'' \<noteq> ''r2''
   \<and> (''r1'' \<in> set (selectedRows
          (toggleRowSelection ''r2'' (initialState\<lparr>selectedRows := [''r1'', ''r2'']\<rparr>))))
       = (''r1'' \<in> set (selectedRows (initialState\<lparr>selectedRows := [''r1'', ''r2'']\<rparr>)))"
  using toggleRowSelection_toggles
    [of "''r2''" "initialState\<lparr>selectedRows := [''r1'', ''r2'']\<rparr>"]
  by (simp add: toggleRowSelection_def)

section \<open>Bulk delete\<close>

text \<open>
  C6: after \<open>bulkDeleteRows(ids)\<close> the rows are the prior rows whose identity is not in
  \<open>ids\<close>, in their prior order, so no row with an identity of \<open>ids\<close> is left, and the
  selection is empty. The reducer is one transition of the store: the state before it
  and the state after it are the only ones a reader sees, so there is none in which the
  rows are gone and the selection still holds them.
\<close>

theorem bulkDeleteRows_removes:
  "rows (bulkDeleteRows ids s) = filter (\<lambda>r. row_id r \<notin> set ids) (rows s)
   \<and> (\<forall>r \<in> set (rows (bulkDeleteRows ids s)). row_id r \<notin> set ids)
   \<and> selectedRows (bulkDeleteRows ids s) = []"
  by (simp add: bulkDeleteRows_def)

theorem bulkDeleteRows_removes_witness:
  "rows (bulkDeleteRows [''r1'']
     (initialState\<lparr>rows := [\<lparr>row_id = ''r1'', row_fields = [(''name'', JStr ''Ann'')]\<rparr>,
                             \<lparr>row_id = ''r2'', row_fields = [(''name'', JStr ''Bob'')]\<rparr>],
                    selectedRows := [''r1'']\<rparr>))
     = [\<lparr>row_id = ''r2'', row_fields = [(''name'', JStr ''Bob'')]\<rparr>]
   \<and> selectedRows (bulkDeleteRows [''r1'']
     (initialState\<lparr>rows := [\<lparr>row_id = ''r1'', row_fields = [(''name'', JStr ''Ann'')]\<rparr>,
                             \<lparr>row_id = ''r2'', row_fields = [(''name'', JStr ''Bob'')]\<rparr>],
                    selectedRows := [''r1'']\<rparr>))
     = []"
  using bulkDeleteRows_removes
    [of "[''r1'']"
      "initialState\<lparr>rows := [\<lparr>row_id = ''r1'', row_fields = [(''name'', JStr ''Ann'')]\<rparr>,
                               \<lparr>row_id = ''r2'', row_fields = [(''name'', JStr ''Bob'')]\<rparr>],
                      selectedRows := [''r1'']\<rparr>"]
  by simp

section \<open>The activity log\<close>

lemma slice_0: "slice 0 (int n) xs = take n xs"
  by (cases "n \<le> length xs") (simp_all add: slice_def relIndex_def min_def)

lemma activityLog_logActivity:
  "activityLog (logActivity c p s) = take 1000 (logEntry c p # activityLog s)"
  using slice_0 [of 1000 "logEntry c p # activityLog s"]
  by (simp add: logActivity_def Let_def)

lemma take_Cons_take: "take n (x # take n ys) = take n (x # ys)"
  by (cases n) (simp_all add: min_def)

lemma activityLog_logActivities:
  "calls \<noteq> [] \<Longrightarrow>
   activityLog (logActivities calls s)
     = take 1000 (rev (map (\<lambda>(c, p). logEntry c p) calls) @ activityLog s)"
proof (induction calls rule: rev_nonempty_induct)
  case (single x)
  then show ?case
    by (cases x) (simp add: logActivities_def activityLog_logActivity)
next
  case (snoc x xs)
  obtain c p where x: "x = (c, p)" by (cases x)
  have "activityLog (logActivities (xs @ [x]) s)
        = take 1000 (logEntry c p # activityLog (logActivities xs s))"
    by (simp add: logActivities_def x activityLog_logActivity)
  also have "\<dots> = take 1000 (logEntry c p # rev (map (\<lambda>(c, p). logEntry c p) xs) @ activityLog s)"
    by (simp only: snoc.IH take_Cons_take append_Cons)
  finally show ?case by (simp add: x)
qed

text \<open>
  C5: every append puts one new entry in front and keeps the first 1000 entries, so the
  log never holds more than 1000 after an append and only the entries at the old end are
  dropped. After 1001 appends to an empty log the log is the entries of the last 1000
  appends, the most recent first: it holds exactly 1000 entries, its head is the entry of
  the last append, and the entry of the first append is gone (it is in the log no more,
  when the clock gave every append its own id).
\<close>

theorem logActivity_bounded:
  "activityLog (logActivity c p s) = take 1000 (logEntry c p # activityLog s)
   \<and> length (activityLog (logActivity c p s)) \<le> 1000
   \<and> (length calls = 1001 \<and> activityLog s = [] \<longrightarrow>
        activityLog (logActivities calls s) = rev (map (\<lambda>(c, p). logEntry c p) (tl calls))
        \<and> length (activityLog (logActivities calls s)) = 1000
        \<and> hd (activityLog (logActivities calls s)) = (\<lambda>(c, p). logEntry c p) (last calls)
        \<and> (distinct (map (\<lambda>(c, p). clock_now c) calls) \<longrightarrow>
             (\<lambda>(c, p). logEntry c p) (hd calls) \<notin> set (activityLog (logActivities calls s))))"
proof (intro conjI impI)
  show a: "activityLog (logActivity c p s) = take 1000 (logEntry c p # activityLog s)"
    by (rule activityLog_logActivity)
  show "length (activityLog (logActivity c p s)) \<le> 1000"
    by (simp add: a)
next
  assume h: "length calls = 1001 \<and> activityLog s = []"
  then obtain x rest where calls: "calls = x # rest" and rest: "length rest = 1000"
    by (cases calls) auto
  have "activityLog (logActivities calls s)
        = take 1000 (rev (map (\<lambda>(c, p). logEntry c p) calls))"
    using h activityLog_logActivities [of calls s] calls by simp
  also have "\<dots> = rev (map (\<lambda>(c, p). logEntry c p) rest)"
    by (simp add: calls rest)
  finally show e: "activityLog (logActivities calls s)
                   = rev (map (\<lambda>(c, p). logEntry c p) (tl calls))"
    by (simp add: calls)
  show "length (activityLog (logActivities calls s)) = 1000"
    unfolding e by (simp add: calls rest)
  have "rest \<noteq> []" using rest by auto
  then show "hd (activityLog (logActivities calls s)) = (\<lambda>(c, p). logEntry c p) (last calls)"
    unfolding e by (simp add: calls hd_rev last_map)
  show "(\<lambda>(c, p). logEntry c p) (hd calls) \<notin> set (activityLog (logActivities calls s))"
    if d: "distinct (map (\<lambda>(c, p). clock_now c) calls)"
  proof
    assume "(\<lambda>(c, p). logEntry c p) (hd calls) \<in> set (activityLog (logActivities calls s))"
    then obtain y where y: "y \<in> set rest"
      and eq: "(\<lambda>(c, p). logEntry c p) y = (\<lambda>(c, p). logEntry c p) x"
      unfolding e by (auto simp: calls)
    have "(\<lambda>(c, p). clock_now c) y = (\<lambda>(c, p). clock_now c) x"
      using eq by (cases x; cases y) (simp add: logEntry_def)
    moreover have "(\<lambda>(c, p). clock_now c) x \<notin> (\<lambda>(c, p). clock_now c) ` set rest"
      using d by (simp add: calls)
    moreover have "(\<lambda>(c, p). clock_now c) y \<in> (\<lambda>(c, p). clock_now c) ` set rest"
      using y by (rule imageI)
    ultimately show False by simp
  qed
qed

theorem logActivity_bounded_witness:
  "length (activityLog (logActivities
         (map (\<lambda>i. (\<lparr>clock_now = replicate i (CHR ''1''), clock_iso = ''t''\<rparr>,
                      \<lparr>pl_action = ActCreate, pl_rowId = None, pl_details = ''added''\<rparr>))
            [0..<1001]) initialState)) = 1000
   \<and> hd (activityLog (logActivities
         (map (\<lambda>i. (\<lparr>clock_now = replicate i (CHR ''1''), clock_iso = ''t''\<rparr>,
                      \<lparr>pl_action = ActCreate, pl_rowId = None, pl_details = ''added''\<rparr>))
            [0..<1001]) initialState))
       = logEntry \<lparr>clock_now = replicate 1000 (CHR ''1''), clock_iso = ''t''\<rparr>
           \<lparr>pl_action = ActCreate, pl_rowId = None, pl_details = ''added''\<rparr>
   \<and> logEntry \<lparr>clock_now = replicate 0 (CHR ''1''), clock_iso = ''t''\<rparr>
         \<lparr>pl_action = ActCreate, pl_rowId = None, pl_details = ''added''\<rparr>
       \<notin> set (activityLog (logActivities
         (map (\<lambda>i. (\<lparr>clock_now = replicate i (CHR ''1''), clock_iso = ''t''\<rparr>,
                      \<lparr>pl_action = ActCreate, pl_rowId = None, pl_details = ''added''\<rparr>))
            [0..<1001]) initialState))"
proof -
  define mk where "mk = (\<lambda>i. (\<lparr>clock_now = replicate i (CHR ''1''), clock_iso = ''t''\<rparr>,
                      \<lparr>pl_action = ActCreate, pl_rowId = None, pl_details = ''added''\<rparr>))"
  define calls where "calls = map mk [0..<1001]"
  have len: "length calls = 1001" by (simp add: calls_def)
  have emp: "activityLog initialState = []" by (simp add: initialState_def)
  have "inj (\<lambda>i. replicate i (CHR ''1''))"
    by (rule injI) (metis length_replicate)
  then have "inj_on (\<lambda>i. replicate i (CHR ''1'')) (set [0..<1001])"
    by (rule inj_on_subset) simp
  then have "distinct (map (\<lambda>i. replicate i (CHR ''1'')) [0..<1001])"
    by (simp only: distinct_map distinct_upt simp_thms)
  moreover have "map (\<lambda>(c, p). clock_now c) calls = map (\<lambda>i. replicate i (CHR ''1'')) [0..<1001]"
    by (simp add: calls_def mk_def comp_def)
  ultimately have dis: "distinct (map (\<lambda>(c, p). clock_now c) calls)" by simp
  have hd0: "hd calls = mk 0"
    by (simp add: calls_def hd_map)
  have la: "last calls = mk 1000"
    by (simp add: calls_def last_map)
  note T = logActivity_bounded [of "fst (mk 0)" "snd (mk 0)" initialState calls]
  from T len emp dis
  have "length (activityLog (logActivities calls initialState)) = 1000
        \<and> hd (activityLog (logActivities calls initialState)) = (\<lambda>(c, p). logEntry c p) (last calls)
        \<and> (\<lambda>(c, p). logEntry c p) (hd calls) \<notin> set (activityLog (logActivities calls initialState))"
    by blast
  then show ?thesis
    unfolding hd0 la unfolding calls_def mk_def by simp
qed

section \<open>The search stage\<close>

lemma filterRows_stages:
  "filterRows E rs cs srch fs
     = filter (\<lambda>row. list_all (filterRows_every E row) fs)
         (if srch \<noteq> [] then filter (\<lambda>row. list_ex (filterRows_some E (toLowerCase srch) row) cs) rs
          else rs)"
  by (simp add: filterRows_def Let_def)





section \<open>The numeric operators\<close>

lemma js_lt_NaN: "\<not> js_lt JNaN n" "\<not> js_lt n JNaN"
  by (cases n; simp)+

lemma js_cmp_NaN:
  "\<not> js_gt JNaN n" "\<not> js_gt n JNaN" "\<not> js_ge JNaN n" "\<not> js_ge n JNaN"
  "\<not> js_le JNaN n" "\<not> js_le n JNaN"
  by (simp_all add: js_gt_def js_ge_def js_le_def js_lt_NaN)

text \<open>
  C8: \<open>greaterThan\<close>, \<open>lessThan\<close> and \<open>between\<close> compare the numbers the row value and
  the filter values coerce to; a comparison with an operand that coerces to not-a-number
  is false, so a filter set with a \<open>between\<close> filter whose primary or secondary value
  is not numeric keeps no row.
\<close>

theorem filterRows_numeric:
  "(filter_operator f = GreaterThan \<longrightarrow>
      filterRows_every E row f
        = js_gt (js_Number E (rowGet row (filter_column f))) (js_Number E (filter_value f)))
   \<and> (filter_operator f = LessThan \<longrightarrow>
      filterRows_every E row f
        = js_lt (js_Number E (rowGet row (filter_column f))) (js_Number E (filter_value f)))
   \<and> (filter_operator f = Between \<longrightarrow>
      filterRows_every E row f
        = (js_ge (js_Number E (rowGet row (filter_column f))) (js_Number E (filter_value f))
           \<and> js_le (js_Number E (rowGet row (filter_column f)))
                (js_Number E (optval (filter_value2 f)))))
   \<and> \<not> js_gt JNaN n \<and> \<not> js_gt n JNaN \<and> \<not> js_lt JNaN n \<and> \<not> js_lt n JNaN
   \<and> \<not> js_ge JNaN n \<and> \<not> js_ge n JNaN \<and> \<not> js_le JNaN n \<and> \<not> js_le n JNaN
   \<and> (f \<in> set fs \<and> filter_operator f = Between
        \<and> (js_Number E (filter_value f) = JNaN \<or> js_Number E (optval (filter_value2 f)) = JNaN)
       \<longrightarrow> filterRows E rs cs srch fs = [])"
proof (intro conjI impI)
  show "filterRows E rs cs srch fs = []"
    if h: "f \<in> set fs \<and> filter_operator f = Between
        \<and> (js_Number E (filter_value f) = JNaN \<or> js_Number E (optval (filter_value2 f)) = JNaN)"
  proof -
    have no: "\<not> filterRows_every E r f" for r
      using h by (auto simp: filterRows_every_def Let_def js_cmp_NaN)
    have "\<not> list_all (filterRows_every E r) fs" for r
      using h no [of r] by (auto simp: list_all_iff)
    then show ?thesis by (simp add: filterRows_stages)
  qed
qed (simp_all add: filterRows_every_def Let_def js_cmp_NaN js_lt_NaN)

theorem filterRows_numeric_witness:
  "js_Number decimalEnv (JStr ''abc'') = JNaN
   \<and> js_Number decimalEnv (optval None) = JNaN
   \<and> filterRows decimalEnv
        [\<lparr>row_id = ''r1'', row_fields = [(''name'', JStr ''Ann''), (''age'', JNum (JFin 30))]\<rparr>,
         \<lparr>row_id = ''r2'', row_fields = [(''name'', JStr ''Bob''), (''age'', JStr ''41'')]\<rparr>]
        (columns initialState) []
        [\<lparr>filter_column = ''age'', filter_operator = Between, filter_value = JStr ''abc'',
          filter_value2 = Some (JStr ''50'')\<rparr>] = []
   \<and> filterRows decimalEnv
        [\<lparr>row_id = ''r1'', row_fields = [(''name'', JStr ''Ann''), (''age'', JNum (JFin 30))]\<rparr>,
         \<lparr>row_id = ''r2'', row_fields = [(''name'', JStr ''Bob''), (''age'', JStr ''41'')]\<rparr>]
        (columns initialState) []
        [\<lparr>filter_column = ''age'', filter_operator = Between, filter_value = JNum (JFin 18),
          filter_value2 = None\<rparr>] = []
   \<and> filterRows decimalEnv
        [\<lparr>row_id = ''r1'', row_fields = [(''name'', JStr ''Ann''), (''age'', JNum (JFin 30))]\<rparr>,
         \<lparr>row_id = ''r2'', row_fields = [(''name'', JStr ''Bob''), (''age'', JStr ''41'')]\<rparr>]
        (columns initialState) []
        [\<lparr>filter_column = ''age'', filter_operator = Between, filter_value = JNum (JFin 18),
          filter_value2 = Some (JStr ''50'')\<rparr>]
      = [\<lparr>row_id = ''r1'', row_fields = [(''name'', JStr ''Ann''), (''age'', JNum (JFin 30))]\<rparr>,
         \<lparr>row_id = ''r2'', row_fields = [(''name'', JStr ''Bob''), (''age'', JStr ''41'')]\<rparr>]"
proof -
  let ?rs = "[\<lparr>row_id = ''r1'', row_fields = [(''name'', JStr ''Ann''), (''age'', JNum (JFin 30))]\<rparr>,
         \<lparr>row_id = ''r2'', row_fields = [(''name'', JStr ''Bob''), (''age'', JStr ''41'')]\<rparr>]"
  let ?f1 = "\<lparr>filter_column = ''age'', filter_operator = Between, filter_value = JStr ''abc'',
          filter_value2 = Some (JStr ''50'')\<rparr>"
  let ?f2 = "\<lparr>filter_column = ''age'', filter_operator = Between, filter_value = JNum (JFin 18),
          filter_value2 = None\<rparr>"
  have n1: "js_Number decimalEnv (JStr ''abc'') = JNaN" by code_simp
  have n2: "js_Number decimalEnv (optval None) = JNaN" by (simp add: optval_def)
  have a: "filterRows decimalEnv ?rs (columns initialState) [] [?f1] = []"
    using filterRows_numeric [of ?f1 decimalEnv _ _ "[?f1]" ?rs "columns initialState" "[]"] n1
    by simp
  have b: "filterRows decimalEnv ?rs (columns initialState) [] [?f2] = []"
    using filterRows_numeric [of ?f2 decimalEnv _ _ "[?f2]" ?rs "columns initialState" "[]"] n2
    by simp
  have c: "filterRows decimalEnv ?rs (columns initialState) []
        [\<lparr>filter_column = ''age'', filter_operator = Between, filter_value = JNum (JFin 18),
          filter_value2 = Some (JStr ''50'')\<rparr>] = ?rs"
    by code_simp
  show ?thesis using n1 n2 a b c by simp
qed

section \<open>The operators \<open>isEmpty\<close> and \<open>isNotEmpty\<close>\<close>

text \<open>
  What the two callbacks decide: \<open>filterRows\<close> tests the truthiness of the value, the
  export tests for null and undefined. They agree on every value but \<open>false\<close>, \<open>0\<close>
  and not-a-number, and \<open>isNotEmpty\<close> is the complement of \<open>isEmpty\<close> in both.
\<close>

lemma filterRows_every_isNotEmpty:
  "filterRows_every E row (f\<lparr>filter_operator := IsNotEmpty\<rparr>)
     = (\<not> filterRows_every E row (f\<lparr>filter_operator := IsEmpty\<rparr>))"
  by (simp add: filterRows_every_def Let_def)

lemma every_agree:
  assumes "filter_operator f = IsEmpty \<or> filter_operator f = IsNotEmpty
           \<Longrightarrow> rowGet row (filter_column f) \<noteq> JBool False
               \<and> rowGet row (filter_column f) \<noteq> JNum (JFin 0)
               \<and> rowGet row (filter_column f) \<noteq> JNum JNaN"
  shows "getExportData_every E row f = filterRows_every E row f"
proof (cases "filter_operator f = IsEmpty \<or> filter_operator f = IsNotEmpty")
  case False
  then show ?thesis
    by (cases "filter_operator f") (simp_all add: getExportData_every_def filterRows_every_def)
next
  case True
  with assms have v: "rowGet row (filter_column f) \<noteq> JBool False"
    "rowGet row (filter_column f) \<noteq> JNum (JFin 0)" "rowGet row (filter_column f) \<noteq> JNum JNaN"
    by simp_all
  have "(\<not> js_truthy (rowGet row (filter_column f))
          \<or> trim (js_String E (rowGet row (filter_column f))) = [])
        = (rowGet row (filter_column f) = JNull \<or> rowGet row (filter_column f) = JUndefined
          \<or> trim (js_String E (rowGet row (filter_column f))) = [])"
    using v by (cases "rowGet row (filter_column f)") (auto simp: trim_def)
  then show ?thesis
    using True by (auto simp: getExportData_every_def filterRows_every_def Let_def)
qed

text \<open>
  C1: the claim takes a value for empty when it is null or undefined or its trimmed text is
  empty, so that \<open>0\<close> and \<open>false\<close> are not empty. \<open>filterRows\<close> does otherwise: on a
  row whose age is \<open>0\<close> and whose flag is \<open>false\<close>, \<open>isEmpty\<close> keeps the row for either
  column and \<open>isNotEmpty\<close> drops it, though the trimmed texts are \<open>0\<close> and \<open>false\<close>.
\<close>

theorem filterRows_isEmpty_falsy:
  "filterRows decimalEnv
     [\<lparr>row_id = ''r1'', row_fields = [(''age'', JNum (JFin 0)), (''active'', JBool False)]\<rparr>,
      \<lparr>row_id = ''r2'', row_fields = [(''age'', JNum (JFin 40)), (''active'', JBool True)]\<rparr>]
     (columns initialState) []
     [\<lparr>filter_column = ''age'', filter_operator = IsEmpty, filter_value = JStr [],
       filter_value2 = None\<rparr>]
   = [\<lparr>row_id = ''r1'', row_fields = [(''age'', JNum (JFin 0)), (''active'', JBool False)]\<rparr>]
   \<and> filterRows decimalEnv
     [\<lparr>row_id = ''r1'', row_fields = [(''age'', JNum (JFin 0)), (''active'', JBool False)]\<rparr>,
      \<lparr>row_id = ''r2'', row_fields = [(''age'', JNum (JFin 40)), (''active'', JBool True)]\<rparr>]
     (columns initialState) []
     [\<lparr>filter_column = ''active'', filter_operator = IsEmpty, filter_value = JStr [],
       filter_value2 = None\<rparr>]
   = [\<lparr>row_id = ''r1'', row_fields = [(''age'', JNum (JFin 0)), (''active'', JBool False)]\<rparr>]
   \<and> filterRows decimalEnv
     [\<lparr>row_id = ''r1'', row_fields = [(''age'', JNum (JFin 0)), (''active'', JBool False)]\<rparr>,
      \<lparr>row_id = ''r2'', row_fields = [(''age'', JNum (JFin 40)), (''active'', JBool True)]\<rparr>]
     (columns initialState) []
     [\<lparr>filter_column = ''age'', filter_operator = IsNotEmpty, filter_value = JStr [],
       filter_value2 = None\<rparr>]
   = [\<lparr>row_id = ''r2'', row_fields = [(''age'', JNum (JFin 40)), (''active'', JBool True)]\<rparr>]
   \<and> trim (js_String decimalEnv (JNum (JFin 0))) = ''0''
   \<and> trim (js_String decimalEnv (JBool False)) = ''false''"
  by code_simp

section \<open>The export of the filtered rows\<close>

text \<open>
  Where no \<open>isEmpty\<close> or \<open>isNotEmpty\<close> filter reads \<open>false\<close>, \<open>0\<close> or not-a-number
  in a row, the export under scope \<open>filtered\<close> has the rows of \<open>filterRows\<close>.
\<close>

lemma getExportData_filtered_agrees:
  assumes "\<forall>row \<in> set (rows s). \<forall>f \<in> set (filters s).
             filter_operator f = IsEmpty \<or> filter_operator f = IsNotEmpty \<longrightarrow>
               rowGet row (filter_column f) \<noteq> JBool False
               \<and> rowGet row (filter_column f) \<noteq> JNum (JFin 0)
               \<and> rowGet row (filter_column f) \<noteq> JNum JNaN"
  shows "fst (getExportData E s ScopeFiltered)
         = filterRows E (rows s) (columns s) (search s) (filters s)"
proof -
  have "getExportData_every E row f = filterRows_every E row f"
    if "row \<in> set (rows s)" and "f \<in> set (filters s)" for row f
    using assms that by (intro every_agree) blast
  then have e: "list_all (getExportData_every E row) (filters s)
           = list_all (filterRows_every E row) (filters s)" if "row \<in> set (rows s)" for row
    using that by (simp add: list_all_iff)
  have "filter (\<lambda>row. list_all (getExportData_every E row) (filters s)) xs
        = filter (\<lambda>row. list_all (filterRows_every E row) (filters s)) xs"
    if "set xs \<subseteq> set (rows s)" for xs
    using that e by (intro filter_cong) auto
  moreover have "getExportData_some E = filterRows_some E"
    by (intro ext) (simp add: getExportData_some_def filterRows_some_def)
  ultimately show ?thesis
    by (simp add: getExportData_def filterRows_stages Let_def)
qed

text \<open>
  C2: the claim equates the rows of the export under scope \<open>filtered\<close> with those of
  \<open>filterRows\<close>. On one row whose age is \<open>0\<close> and the filter \<open>isEmpty\<close> on age the
  export has no row and \<open>filterRows\<close> keeps the row.
\<close>

theorem getExportData_filtered_differs:
  "fst (getExportData decimalEnv
     (initialState
        \<lparr>rows := [\<lparr>row_id = ''r1'', row_fields = [(''name'', JStr ''Ann''), (''age'', JNum (JFin 0))]\<rparr>],
         filters := [\<lparr>filter_column = ''age'', filter_operator = IsEmpty, filter_value = JStr [],
                      filter_value2 = None\<rparr>]\<rparr>) ScopeFiltered) = []
   \<and> filterRows decimalEnv
       [\<lparr>row_id = ''r1'', row_fields = [(''name'', JStr ''Ann''), (''age'', JNum (JFin 0))]\<rparr>]
       (columns initialState) []
       [\<lparr>filter_column = ''age'', filter_operator = IsEmpty, filter_value = JStr [],
         filter_value2 = None\<rparr>]
     = [\<lparr>row_id = ''r1'', row_fields = [(''name'', JStr ''Ann''), (''age'', JNum (JFin 0))]\<rparr>]"
  by code_simp

section \<open>Pagination\<close>

lemma pagedRows_take_drop:
  assumes "0 \<le> pg" and "0 \<le> sz"
  shows "pagedRows xs pg sz = take (nat sz) (drop (nat pg * nat sz) xs)"
proof -
  have a: "nat (pg * sz) = nat pg * nat sz"
    using assms by (simp add: nat_mult_distrib)
  have b: "nat (pg * sz + sz) = nat pg * nat sz + nat sz"
    using assms a by (simp add: nat_add_distrib)
  have nn: "\<not> pg * sz < 0" "\<not> pg * sz + sz < 0"
    using assms by (simp_all add: not_less)
  show ?thesis
  proof (cases "nat pg * nat sz \<le> length xs")
    case True
    then show ?thesis
      using nn by (auto simp: pagedRows_def slice_def relIndex_def a b min_def Let_def)
  next
    case False
    then show ?thesis
      using nn by (auto simp: pagedRows_def slice_def relIndex_def a b min_def Let_def)
  qed
qed

lemma concat_pages:
  "concat (map (\<lambda>p. take n (drop (p * n) xs)) [0..<m]) = take (m * n) xs"
proof (induction m)
  case 0
  then show ?case by simp
next
  case (Suc m)
  have "take (Suc m * n) xs = take (m * n + n) xs"
    by (simp add: add.commute)
  also have "\<dots> = take (m * n) xs @ take n (drop (m * n) xs)"
    by (rule take_add)
  finally show ?case using Suc by simp
qed

lemma upto_as_upt: "[0..int n] = map int [0..<Suc n]"
proof (induction n)
  case 0
  then show ?case by (simp add: upto.simps)
next
  case (Suc n)
  have "[0..int (Suc n)] = [0..int n] @ [int (Suc n)]"
    by (simp add: upto_rec2)
  then show ?case using Suc by simp
qed

text \<open>
  C7: for a zero-based page index and a page size of at least one, the page is the slice
  from \<open>page * pageSize\<close> to \<open>page * pageSize + pageSize\<close> clamped to the sequence (what
  \<open>take\<close> and \<open>drop\<close> compute). It never has more than \<open>pageSize\<close> rows, it is empty for
  every page that starts at or after the end, and the pages \<open>0\<close> to
  \<open>ceil(len / pageSize)\<close>, one after the other, are the sequence itself.
\<close>

theorem pagedRows_pages:
  "0 \<le> pg \<and> 0 < pgSize \<longrightarrow>
     pagedRows xs pg pgSize = take (nat pgSize) (drop (nat pg * nat pgSize) xs)
     \<and> length (pagedRows xs pg pgSize) \<le> nat pgSize
     \<and> (int (length xs) \<le> pg * pgSize \<longrightarrow> pagedRows xs pg pgSize = [])
     \<and> concat (map (\<lambda>p. pagedRows xs p pgSize)
                [0..\<lceil>(of_nat (length xs) :: rat) / of_int pgSize\<rceil>]) = xs"
proof (intro impI conjI)
  assume h: "0 \<le> pg \<and> 0 < pgSize"
  then have pg: "0 \<le> pg" and sz: "0 < pgSize" by simp_all
  show td: "pagedRows xs pg pgSize = take (nat pgSize) (drop (nat pg * nat pgSize) xs)"
    using pg sz by (simp add: pagedRows_take_drop)
  show "length (pagedRows xs pg pgSize) \<le> nat pgSize"
    by (simp add: td)
  show "pagedRows xs pg pgSize = []" if "int (length xs) \<le> pg * pgSize"
  proof -
    have "length xs \<le> nat (pg * pgSize)" using that by linarith
    then have "length xs \<le> nat pg * nat pgSize"
      using pg by (simp add: nat_mult_distrib)
    then show ?thesis by (simp add: td)
  qed
  define c where "c = \<lceil>(of_nat (length xs) :: rat) / of_int pgSize\<rceil>"
  have "0 \<le> (of_nat (length xs) :: rat) / of_int pgSize"
    using sz by (simp add: divide_nonneg_pos)
  then have c0: "0 \<le> c"
    unfolding c_def by simp
  have "(of_nat (length xs) :: rat) / of_int pgSize \<le> of_int c"
    unfolding c_def by (rule le_of_int_ceiling)
  then have "(of_nat (length xs) :: rat) \<le> of_int c * of_int pgSize"
    using sz by (simp add: pos_divide_le_eq)
  then have "(of_int (int (length xs)) :: rat) \<le> of_int (c * pgSize)"
    by simp
  then have cover: "int (length xs) \<le> c * pgSize"
    by (simp only: of_int_le_iff)
  have "length xs \<le> nat (c * pgSize)" using cover by linarith
  then have le: "length xs \<le> Suc (nat c) * nat pgSize"
    using c0 by (simp add: nat_mult_distrib)
  have "[0..c] = map int [0..<Suc (nat c)]"
    using upto_as_upt [of "nat c"] c0 by simp
  then have "concat (map (\<lambda>p. pagedRows xs p pgSize) [0..c])
             = concat (map (\<lambda>p. take (nat pgSize) (drop (p * nat pgSize) xs)) [0..<Suc (nat c)])"
    using sz by (simp add: pagedRows_take_drop comp_def)
  also have "\<dots> = take (Suc (nat c) * nat pgSize) xs"
    by (rule concat_pages)
  also have "\<dots> = xs" using le by simp
  finally show "concat (map (\<lambda>p. pagedRows xs p pgSize)
                [0..\<lceil>(of_nat (length xs) :: rat) / of_int pgSize\<rceil>]) = xs"
    unfolding c_def .
qed

theorem pagedRows_pages_witness:
  "(0::int) \<le> 1 \<and> (0::int) < 2
   \<and> pagedRows [10, 20, 30, 40, 50 :: nat] 1 2 = [30, 40]
   \<and> int (length [10, 20, 30, 40, 50 :: nat]) \<le> 3 * 2
   \<and> pagedRows [10, 20, 30, 40, 50 :: nat] 3 2 = []
   \<and> concat (map (\<lambda>p. pagedRows [10, 20, 30, 40, 50 :: nat] p 2) [0..3])
       = [10, 20, 30, 40, 50]"
proof -
  have c: "\<lceil>(of_nat (length [10, 20, 30, 40, 50 :: nat]) :: rat) / of_int 2\<rceil> = 3"
    by (rule ceiling_unique) simp_all
  have h: "(0::int) \<le> 1 \<and> (0::int) < 2" by simp
  have p1: "pagedRows [10, 20, 30, 40, 50 :: nat] 1 2 = [30, 40]"
    using pagedRows_pages [of 1 2 "[10, 20, 30, 40, 50 :: nat]"] by simp
  have p3: "pagedRows [10, 20, 30, 40, 50 :: nat] 3 2 = []"
    using pagedRows_pages [of 3 2 "[10, 20, 30, 40, 50 :: nat]"] by simp
  have all: "concat (map (\<lambda>p. pagedRows [10, 20, 30, 40, 50 :: nat] p 2) [0..3])
             = [10, 20, 30, 40, 50]"
    using pagedRows_pages [of 1 2 "[10, 20, 30, 40, 50 :: nat]"] h unfolding c by blast
  show ?thesis using p1 p3 all by simp
qed

section \<open>Duplicating the selected rows\<close>

lemma rows_fold_addRow: "rows (fold addRow ds s) = rows s @ ds"
  by (induction ds arbitrary: s) (simp_all add: addRow_def)

lemma selectedRows_setSelectedRows: "selectedRows (setSelectedRows ids s) = ids"
  by (simp add: setSelectedRows_def)

lemma rows_handleBulkDuplicate:
  "rows (handleBulkDuplicate E uuidv4 c s)
     = rows s @ map (\<lambda>(i, row). duplicateRow E (uuidv4 i) row)
                  (enumerate 0 (filter (\<lambda>row. row_id row \<in> set (selectedRows s)) (rows s)))"
  by (simp add: handleBulkDuplicate_def Let_def setSelectedRows_def logActivity_def
      rows_fold_addRow)

lemma map_of_update_other:
  "k \<noteq> k' \<Longrightarrow> map_of (AList.update k' v al) k = map_of al k"
  by (simp add: update_conv')

text \<open>
  C3, as the code has it: the handler appends, for every row whose identity is selected
  and in the order of the rows, one copy under the next generated identity, with the
  text of the name followed by \<open> (Copy)\<close> as its name and every other field as it was;
  its last dispatch is \<open>setSelectedRows([])\<close>, so the selection is empty afterwards.
\<close>

theorem handleBulkDuplicate_copies:
  "rows (handleBulkDuplicate E uuidv4 c s)
     = rows s @ map (\<lambda>(i, row). duplicateRow E (uuidv4 i) row)
                  (enumerate 0 (filter (\<lambda>row. row_id row \<in> set (selectedRows s)) (rows s)))
   \<and> row_id (duplicateRow E newId row) = newId
   \<and> rowGet (duplicateRow E newId row) ''name''
       = JStr (js_String E (rowGet row ''name'') @ '' (Copy)'')
   \<and> (\<forall>k. k \<noteq> ''name'' \<and> k \<noteq> ''id'' \<longrightarrow>
         rowGet (duplicateRow E newId row) k = rowGet row k)
   \<and> selectedRows (handleBulkDuplicate E uuidv4 c s) = []"
proof (intro conjI allI impI)
  show "rows (handleBulkDuplicate E uuidv4 c s)
     = rows s @ map (\<lambda>(i, row). duplicateRow E (uuidv4 i) row)
                  (enumerate 0 (filter (\<lambda>row. row_id row \<in> set (selectedRows s)) (rows s)))"
    by (rule rows_handleBulkDuplicate)
  show "row_id (duplicateRow E newId row) = newId"
    by (simp add: duplicateRow_def)
  show "rowGet (duplicateRow E newId row) ''name''
       = JStr (js_String E (rowGet row ''name'') @ '' (Copy)'')"
    by (simp add: duplicateRow_def rowGet_def update_conv')
  show "rowGet (duplicateRow E newId row) k = rowGet row k"
    if "k \<noteq> ''name'' \<and> k \<noteq> ''id''" for k
    using that by (simp add: duplicateRow_def rowGet_def map_of_update_other)
  show "selectedRows (handleBulkDuplicate E uuidv4 c s) = []"
    by (simp add: handleBulkDuplicate_def Let_def selectedRows_setSelectedRows)
qed

theorem handleBulkDuplicate_copies_witness:
  "rows (handleBulkDuplicate decimalEnv (\<lambda>i. ''uuid-'' @ showNat i)
          \<lparr>clock_now = ''1700000000000'', clock_iso = ''2023-11-14T22:13:20.000Z''\<rparr>
          (initialState
             \<lparr>rows := [\<lparr>row_id = ''r1'', row_fields = [(''name'', JStr ''Ann''), (''age'', JNum (JFin 30))]\<rparr>,
                       \<lparr>row_id = ''r2'', row_fields = [(''name'', JStr ''Bob''), (''age'', JNum (JFin 41))]\<rparr>],
              selectedRows := [''r2'']\<rparr>))
     = [\<lparr>row_id = ''r1'', row_fields = [(''name'', JStr ''Ann''), (''age'', JNum (JFin 30))]\<rparr>,
        \<lparr>row_id = ''r2'', row_fields = [(''name'', JStr ''Bob''), (''age'', JNum (JFin 41))]\<rparr>,
        \<lparr>row_id = ''uuid-0'', row_fields = [(''name'', JStr ''Bob (Copy)''), (''age'', JNum (JFin 41))]\<rparr>]
   \<and> ''age'' \<noteq> ''name'' \<and> ''age'' \<noteq> ''id''
   \<and> rowGet (duplicateRow decimalEnv ''uuid-0''
         \<lparr>row_id = ''r2'', row_fields = [(''name'', JStr ''Bob''), (''age'', JNum (JFin 41))]\<rparr>) ''age''
       = JNum (JFin 41)
   \<and> selectedRows (handleBulkDuplicate decimalEnv (\<lambda>i. ''uuid-'' @ showNat i)
          \<lparr>clock_now = ''1700000000000'', clock_iso = ''2023-11-14T22:13:20.000Z''\<rparr>
          (initialState
             \<lparr>rows := [\<lparr>row_id = ''r1'', row_fields = [(''name'', JStr ''Ann''), (''age'', JNum (JFin 30))]\<rparr>,
                       \<lparr>row_id = ''r2'', row_fields = [(''name'', JStr ''Bob''), (''age'', JNum (JFin 41))]\<rparr>],
              selectedRows := [''r2'']\<rparr>))
     = []"
  using handleBulkDuplicate_copies [of decimalEnv "\<lambda>i. ''uuid-'' @ showNat i"
      "\<lparr>clock_now = ''1700000000000'', clock_iso = ''2023-11-14T22:13:20.000Z''\<rparr>"
      "initialState
             \<lparr>rows := [\<lparr>row_id = ''r1'', row_fields = [(''name'', JStr ''Ann''), (''age'', JNum (JFin 30))]\<rparr>,
                       \<lparr>row_id = ''r2'', row_fields = [(''name'', JStr ''Bob''), (''age'', JNum (JFin 41))]\<rparr>],
              selectedRows := [''r2'']\<rparr>"
      "''uuid-0''"
      "\<lparr>row_id = ''r2'', row_fields = [(''name'', JStr ''Bob''), (''age'', JNum (JFin 41))]\<rparr>"]
  by (simp add: enumerate_eq_zip duplicateRow_def rowGet_def initialState_def)


text \<open>
  The claim's last part, that the selection after the duplication is the selection before
  it, fails on one selected row: the selection is \<open>[r1]\<close> before and empty after.
\<close>

theorem handleBulkDuplicate_keeps_selection_counterexample:
  "selectedRows (initialState
             \<lparr>rows := [\<lparr>row_id = ''r1'', row_fields = [(''name'', JStr ''Ann'')]\<rparr>],
              selectedRows := [''r1'']\<rparr>) = [''r1'']
   \<and> selectedRows (handleBulkDuplicate decimalEnv (\<lambda>i. ''uuid-'' @ showNat i)
          \<lparr>clock_now = ''1700000000000'', clock_iso = ''2023-11-14T22:13:20.000Z''\<rparr>
          (initialState
             \<lparr>rows := [\<lparr>row_id = ''r1'', row_fields = [(''name'', JStr ''Ann'')]\<rparr>],
              selectedRows := [''r1'']\<rparr>)) = []
   \<and> selectedRows (handleBulkDuplicate decimalEnv (\<lambda>i. ''uuid-'' @ showNat i)
          \<lparr>clock_now = ''1700000000000'', clock_iso = ''2023-11-14T22:13:20.000Z''\<rparr>
          (initialState
             \<lparr>rows := [\<lparr>row_id = ''r1'', row_fields = [(''name'', JStr ''Ann'')]\<rparr>],
              selectedRows := [''r1'']\<rparr>))
       \<noteq> selectedRows (initialState
             \<lparr>rows := [\<lparr>row_id = ''r1'', row_fields = [(''name'', JStr ''Ann'')]\<rparr>],
              selectedRows := [''r1'']\<rparr>)"
  by (simp add: handleBulkDuplicate_def Let_def setSelectedRows_def)

section \<open>Saved views\<close>

lemma mutate_frame:
  "savedViews (mutate m s) = savedViews s" "rows (mutate m s) = rows s"
  "selectedRows (mutate m s) = selectedRows s" "pageSize (mutate m s) = pageSize s"
  by (cases m; simp add: setColumns_def setFilters_def addFilter_def removeFilter_def
      setSort_def setSearch_def)+

lemma fold_mutate_frame:
  "savedViews (fold mutate ms s) = savedViews s \<and> rows (fold mutate ms s) = rows s
   \<and> selectedRows (fold mutate ms s) = selectedRows s
   \<and> pageSize (fold mutate ms s) = pageSize s"
  by (induction ms arbitrary: s) (simp_all add: mutate_frame)

lemma find_fresh_append:
  "\<forall>v \<in> set vs. \<not> P v \<Longrightarrow> P w \<Longrightarrow> find P (vs @ [w]) = Some w"
  by (induction vs) simp_all

lemma find_absent: "\<forall>v \<in> set vs. \<not> P v \<Longrightarrow> find P vs = None"
  by (induction vs) simp_all

lemma loadView_absent: "vid \<notin> view_id ` set (savedViews s) \<Longrightarrow> loadView vid s = s"
proof -
  assume "vid \<notin> view_id ` set (savedViews s)"
  then have "\<forall>v \<in> set (savedViews s). \<not> view_id v = vid" by (metis image_eqI)
  then have "find (\<lambda>v. view_id v = vid) (savedViews s) = None" by (rule find_absent)
  then show ?thesis by (simp add: loadView_def)
qed

text \<open>
  C4, as the code has it: \<open>loadView\<close> takes the first saved view with the given
  identity, and \<open>saveView\<close> takes the identity from the clock. When no view saved before
  has the identity the clock gives, saving the live view, then any mutations of the live
  columns, filters, sort and search, then loading that identity gives back the columns,
  filters, sort and search of the time of saving and page 0, and leaves rows, selection
  and page size as they were. Loading an identity that no saved view has leaves the
  state as it is.
\<close>

theorem saveView_loadView_roundtrip:
  "(clock_now c \<notin> view_id ` set (savedViews s) \<longrightarrow>
      (let s1 = saveView c (currentView viewName s) s;
           s2 = fold mutate ms s1;
           s3 = loadView (clock_now c) s2
       in columns s3 = columns s \<and> filters s3 = filters s \<and> sort_s s3 = sort_s s
          \<and> search s3 = search s \<and> page s3 = 0
          \<and> rows s3 = rows s2 \<and> selectedRows s3 = selectedRows s2 \<and> pageSize s3 = pageSize s2
          \<and> rows s3 = rows s \<and> selectedRows s3 = selectedRows s))
   \<and> (vid \<notin> view_id ` set (savedViews s) \<longrightarrow> loadView vid s = s)"
proof (intro conjI impI)
  assume fresh: "clock_now c \<notin> view_id ` set (savedViews s)"
  define view where "view = \<lparr>view_id = clock_now c, view_name = trim viewName,
                  view_columns = columns s, view_filters = filters s,
                  view_sort = sort_s s, view_search = search s,
                  view_timestamp = clock_iso c\<rparr>"
  define s1 where "s1 = saveView c (currentView viewName s) s"
  define s2 where "s2 = fold mutate ms s1"
  have sv1: "savedViews s1 = savedViews s @ [view]"
    by (simp add: s1_def saveView_def currentView_def view_def)
  have fr1: "rows s1 = rows s" "selectedRows s1 = selectedRows s"
    by (simp_all add: s1_def saveView_def)
  have sv2: "savedViews s2 = savedViews s @ [view]"
    using fold_mutate_frame [of ms s1] sv1 by (simp add: s2_def)
  have fr2: "rows s2 = rows s" "selectedRows s2 = selectedRows s"
    using fold_mutate_frame [of ms s1] fr1 by (simp_all add: s2_def)
  have "\<forall>v \<in> set (savedViews s). \<not> view_id v = clock_now c"
    using fresh by (metis image_eqI)
  moreover have "view_id view = clock_now c" by (simp add: view_def)
  ultimately have f: "find (\<lambda>v. view_id v = clock_now c) (savedViews s2) = Some view"
    unfolding sv2 by (rule find_fresh_append)
  have l: "loadView (clock_now c) s2
           = s2\<lparr>columns := columns s, filters := filters s, sort_s := sort_s s,
                search := search s, page := 0\<rparr>"
    by (simp add: loadView_def f view_def)
  show "let s1 = saveView c (currentView viewName s) s;
           s2 = fold mutate ms s1;
           s3 = loadView (clock_now c) s2
       in columns s3 = columns s \<and> filters s3 = filters s \<and> sort_s s3 = sort_s s
          \<and> search s3 = search s \<and> page s3 = 0
          \<and> rows s3 = rows s2 \<and> selectedRows s3 = selectedRows s2 \<and> pageSize s3 = pageSize s2
          \<and> rows s3 = rows s \<and> selectedRows s3 = selectedRows s"
    unfolding Let_def s1_def [symmetric] s2_def [symmetric] l
    by (simp add: fr2)
next
  assume "vid \<notin> view_id ` set (savedViews s)"
  then show "loadView vid s = s" by (rule loadView_absent)
qed

theorem saveView_loadView_roundtrip_witness:
  "clock_now \<lparr>clock_now = ''1700000000000'', clock_iso = ''2023-11-14T22:13:20.000Z''\<rparr>
     \<notin> view_id ` set (savedViews (initialState\<lparr>search := ''ann''\<rparr>))
   \<and> search (loadView ''1700000000000''
        (fold mutate [SetSearch ''bob'', SetSort (Some \<lparr>sort_column = ''age'', sort_direction = Desc\<rparr>),
                      RemoveFilter 0, SetColumns []]
          (saveView \<lparr>clock_now = ''1700000000000'', clock_iso = ''2023-11-14T22:13:20.000Z''\<rparr>
             (currentView ''mine'' (initialState\<lparr>search := ''ann''\<rparr>))
             (initialState\<lparr>search := ''ann''\<rparr>)))) = ''ann''
   \<and> columns (loadView ''1700000000000''
        (fold mutate [SetSearch ''bob'', SetSort (Some \<lparr>sort_column = ''age'', sort_direction = Desc\<rparr>),
                      RemoveFilter 0, SetColumns []]
          (saveView \<lparr>clock_now = ''1700000000000'', clock_iso = ''2023-11-14T22:13:20.000Z''\<rparr>
             (currentView ''mine'' (initialState\<lparr>search := ''ann''\<rparr>))
             (initialState\<lparr>search := ''ann''\<rparr>)))) = columns initialState
   \<and> ''none'' \<notin> view_id ` set (savedViews (initialState\<lparr>search := ''ann''\<rparr>))
   \<and> loadView ''none'' (initialState\<lparr>search := ''ann''\<rparr>) = initialState\<lparr>search := ''ann''\<rparr>"
proof -
  have sv: "savedViews (initialState\<lparr>search := ''ann''\<rparr>) = []"
    by (simp add: initialState_def)
  have a: "clock_now \<lparr>clock_now = ''1700000000000'', clock_iso = ''2023-11-14T22:13:20.000Z''\<rparr>
     \<notin> view_id ` set (savedViews (initialState\<lparr>search := ''ann''\<rparr>))"
    by (simp add: sv)
  have b: "''none'' \<notin> view_id ` set (savedViews (initialState\<lparr>search := ''ann''\<rparr>))"
    by (simp add: sv)
  show ?thesis
    using saveView_loadView_roundtrip
      [of "\<lparr>clock_now = ''1700000000000'', clock_iso = ''2023-11-14T22:13:20.000Z''\<rparr>"
          "initialState\<lparr>search := ''ann''\<rparr>" "''mine''"
          "[SetSearch ''bob'', SetSort (Some \<lparr>sort_column = ''age'', sort_direction = Desc\<rparr>),
                      RemoveFilter 0, SetColumns []]" "''none''"] a b
    by (simp add: Let_def)
qed


text \<open>
  Without that condition the round trip fails: a view saved earlier under the identity
  the clock gives again is the one \<open>loadView\<close> finds, and its search text \<open>bob\<close> replaces
  the \<open>ann\<close> that was live when the second view was saved.
\<close>

theorem saveView_loadView_collision_counterexample:
  "search (initialState
       \<lparr>search := ''ann'',
        savedViews := [\<lparr>view_id = ''1700000000000'', view_name = ''old'',
                        view_columns = [], view_filters = [], view_sort = None,
                        view_search = ''bob'',
                        view_timestamp = ''2023-11-14T22:13:20.000Z''\<rparr>]\<rparr>) = ''ann''
   \<and> search (loadView ''1700000000000''
        (fold mutate [SetSearch ''cy'']
          (saveView \<lparr>clock_now = ''1700000000000'', clock_iso = ''2023-11-14T22:13:20.000Z''\<rparr>
             (currentView ''mine''
               (initialState
                 \<lparr>search := ''ann'',
                  savedViews := [\<lparr>view_id = ''1700000000000'', view_name = ''old'',
                        view_columns = [], view_filters = [], view_sort = None,
                        view_search = ''bob'',
                        view_timestamp = ''2023-11-14T22:13:20.000Z''\<rparr>]\<rparr>))
             (initialState
                 \<lparr>search := ''ann'',
                  savedViews := [\<lparr>view_id = ''1700000000000'', view_name = ''old'',
                        view_columns = [], view_filters = [], view_sort = None,
                        view_search = ''bob'',
                        view_timestamp = ''2023-11-14T22:13:20.000Z''\<rparr>]\<rparr>)))) = ''bob''"
  by (simp add: loadView_def saveView_def setSearch_def currentView_def)

end
